theory Spec2Isabelle
  imports Main
begin

section \<open>The platform: paths, the file system, the shell\<close>

text \<open>
  The command-line tool exists in two versions: \<^verbatim>\<open>src/cli/cli.ts\<close> (interactive
  \<^verbatim>\<open>add\<close> only) and the version in \<^verbatim>\<open>src/unnamed/part_000\<close> (lines 417 to 772), which adds
  \<^verbatim>\<open>installComponents\<close> and a direct mode of \<^verbatim>\<open>add\<close>. The helpers \<^verbatim>\<open>exists\<close>,
  \<^verbatim>\<open>listAvailableComponents\<close>, \<^verbatim>\<open>readComponentFromUI\<close>, \<^verbatim>\<open>detectPackageManager\<close>
  and \<^verbatim>\<open>installDependencies\<close> are the same in both, up to spinner messages.

  A path is the list of the segments of an absolute, normalised POSIX path.
  \<^verbatim>\<open>path.join\<close> splits its arguments at \<^verbatim>\<open>/\<close>, drops empty segments and \<^verbatim>\<open>.\<close>, and lets
  \<^verbatim>\<open>..\<close> remove the segment before it.
\<close>

type_synonym path = "string list"

fun split_on :: "char \<Rightarrow> string \<Rightarrow> string list" where
  "split_on d [] = [[]]"
| "split_on d (c # cs) =
     (if c = d then [] # split_on d cs
      else (case split_on d cs of
              [] \<Rightarrow> [[c]]
            | s # ss \<Rightarrow> (c # s) # ss))"

definition norm_push :: "string list \<Rightarrow> string \<Rightarrow> string list" where
  "norm_push stk seg =
     (if seg = [] \<or> seg = ''.'' then stk
      else if seg = ''..'' then (case stk of [] \<Rightarrow> [] | _ # t \<Rightarrow> t)
      else seg # stk)"

definition path_join :: "path \<Rightarrow> string list \<Rightarrow> path" where
  "path_join base parts =
     rev (foldl norm_push (rev base) (concat (map (split_on CHR ''/'') parts)))"

text \<open>JavaScript's \<^verbatim>\<open>Array.prototype.join\<close>, \<^verbatim>\<open>String.prototype.endsWith\<close>,
  \<^verbatim>\<open>String.prototype.replace\<close> with a string pattern (the first occurrence only) and
  \<^verbatim>\<open>toLowerCase\<close>. The lower-casing is that of the ASCII letters; no character outside
  ASCII lower-cases to a letter of \<^verbatim>\<open>button\<close>, the only word the tool compares with.\<close>

fun join :: "string \<Rightarrow> string list \<Rightarrow> string" where
  "join sep [] = []"
| "join sep [x] = x"
| "join sep (x # y # ys) = x @ sep @ join sep (y # ys)"

definition endsWith :: "string \<Rightarrow> string \<Rightarrow> bool" where
  "endsWith s suf =
     (length suf \<le> length s \<and> drop (length s - length suf) s = suf)"

fun replace :: "string \<Rightarrow> string \<Rightarrow> string \<Rightarrow> string" where
  "replace [] pat rep = (if pat = [] then rep else [])"
| "replace (c # cs) pat rep =
     (if take (length pat) (c # cs) = pat then rep @ drop (length pat) (c # cs)
      else c # replace cs pat rep)"

definition lower_char :: "char \<Rightarrow> char" where
  "lower_char c =
     (case map_of (zip ''ABCDEFGHIJKLMNOPQRSTUVWXYZ'' ''abcdefghijklmnopqrstuvwxyz'') c of
        None \<Rightarrow> c
      | Some l \<Rightarrow> l)"

definition toLowerCase :: "string \<Rightarrow> string" where
  "toLowerCase s = map lower_char s"

text \<open>A JavaScript \<^verbatim>\<open>Set<string>\<close> keeps insertion order and ignores an element
  it already holds.\<close>

definition set_add :: "string list \<Rightarrow> string \<Rightarrow> string list" where
  "set_add s x = (if x \<in> set s then s else s @ [x])"

datatype package_manager = Npm | Yarn | Pnpm

text \<open>Every error of the tool is a JavaScript \<^verbatim>\<open>Error\<close>; the constructors keep what
  its message is built from.\<close>

datatype error =
    FsError path
  | FileNotFound path
  | ReadComponentFailed string error
  | UIDirUnreadable
  | InstallFailed package_manager

datatype log_line = Line string | ErrorMessage error

record exec_call =
  command :: string
  stdio_inherit :: bool

text \<open>
  \<^verbatim>\<open>readFile(path, 'utf-8')\<close> decodes the bytes of the file as UTF-8, and \<^verbatim>\<open>writeFile\<close>
  encodes the string it is given as UTF-8. A JavaScript string is represented here by
  its UTF-8 encoding, so that decoding is the function that leaves every well-formed
  sequence as it is and puts U+FFFD (the bytes EF BF BD) for every ill-formed one, and
  encoding is the identity. \<open>utf8_decode\<close> is the decoder of the WHATWG Encoding
  Standard: \<open>buf\<close> holds the bytes of the sequence begun, \<open>needed\<close> the number of bytes
  it still lacks, \<open>lo\<close> and \<open>hi\<close> the bounds of the next byte; a byte that cannot
  continue the sequence ends it with U+FFFD and is then read as a first byte.
\<close>

definition replacement :: string where
  "replacement = [CHR 0xEF, CHR 0xBF, CHR 0xBD]"

fun utf8_decode :: "string \<Rightarrow> nat \<Rightarrow> nat \<Rightarrow> nat \<Rightarrow> string \<Rightarrow> string" where
  "utf8_decode buf needed lo hi [] = (if needed = 0 then [] else replacement)"
| "utf8_decode buf needed lo hi (b # bs) =
     (let n = (of_char b :: nat)
      in if needed \<noteq> 0 \<and> lo \<le> n \<and> n \<le> hi
         then (if needed = 1 then buf @ [b] @ utf8_decode [] 0 0x80 0xBF bs
               else utf8_decode (buf @ [b]) (needed - 1) 0x80 0xBF bs)
         else (if needed \<noteq> 0 then replacement else [])
              @ (if n \<le> 0x7F then b # utf8_decode [] 0 0x80 0xBF bs
                 else if 0xC2 \<le> n \<and> n \<le> 0xDF then utf8_decode [b] 1 0x80 0xBF bs
                 else if 0xE0 \<le> n \<and> n \<le> 0xEF
                 then utf8_decode [b] 2 (if n = 0xE0 then 0xA0 else 0x80)
                        (if n = 0xED then 0x9F else 0xBF) bs
                 else if 0xF0 \<le> n \<and> n \<le> 0xF4
                 then utf8_decode [b] 3 (if n = 0xF0 then 0x90 else 0x80)
                        (if n = 0xF4 then 0x8F else 0xBF) bs
                 else replacement @ utf8_decode [] 0 0x80 0xBF bs))"

definition toString_utf8 :: "string \<Rightarrow> string" where
  "toString_utf8 bytes = utf8_decode [] 0 0x80 0xBF bytes"

text \<open>Well-formed UTF-8, by the table of well-formed byte sequences of the Unicode
  Standard (table 3-7).\<close>

definition in_range :: "nat \<Rightarrow> nat \<Rightarrow> char \<Rightarrow> bool" where
  "in_range lo hi b = (lo \<le> of_char b \<and> (of_char b :: nat) \<le> hi)"

fun well_formed_utf8 :: "string \<Rightarrow> bool" where
  "well_formed_utf8 [] = True"
| "well_formed_utf8 (a # bs) =
     (let n = (of_char a :: nat)
      in if n \<le> 0x7F then well_formed_utf8 bs
         else if 0xC2 \<le> n \<and> n \<le> 0xDF
         then (case bs of
                 b # r \<Rightarrow> in_range 0x80 0xBF b \<and> well_formed_utf8 r
               | _ \<Rightarrow> False)
         else if 0xE0 \<le> n \<and> n \<le> 0xEF
         then (case bs of
                 b # c # r \<Rightarrow>
                   in_range (if n = 0xE0 then 0xA0 else 0x80) (if n = 0xED then 0x9F else 0xBF) b
                   \<and> in_range 0x80 0xBF c \<and> well_formed_utf8 r
               | _ \<Rightarrow> False)
         else if 0xF0 \<le> n \<and> n \<le> 0xF4
         then (case bs of
                 b # c # d # r \<Rightarrow>
                   in_range (if n = 0xF0 then 0x90 else 0x80) (if n = 0xF4 then 0x8F else 0xBF) b
                   \<and> in_range 0x80 0xBF c \<and> in_range 0x80 0xBF d \<and> well_formed_utf8 r
               | _ \<Rightarrow> False)
         else False)"

text \<open>
  The world the tool runs in. \<open>store\<close> gives the bytes \<^verbatim>\<open>readFile\<close> returns for a
  path (\<open>None\<close> when it rejects), \<open>unreadable\<close> the paths at which something is on
  the disk that \<^verbatim>\<open>readFile\<close> rejects (a file without read permission, a directory),
  \<open>ui_listing\<close> what \<^verbatim>\<open>readdir\<close> returns for the \<^verbatim>\<open>ui\<close> directory, \<open>mkdir_ok\<close> and
  \<open>write_ok\<close> whether \<^verbatim>\<open>mkdir\<close> and \<^verbatim>\<open>writeFile\<close> succeed at a path, and \<open>shell\<close> what
  a command run by \<^verbatim>\<open>execSync\<close> does: whether it exits with zero, and the files it
  leaves. \<open>written\<close>, \<open>executed\<close> and \<open>console\<close> log the successful writes, the
  commands run and the warnings printed. The tool reads the disk through \<^verbatim>\<open>readFile\<close>
  only, so none of its functions looks at \<open>unreadable\<close>: it cannot tell such a path
  from one where nothing is.
\<close>

record world =
  cwd :: path
  store :: "path \<Rightarrow> string option"
  unreadable :: "path \<Rightarrow> bool"
  ui_listing :: "string list option"
  mkdir_ok :: "path \<Rightarrow> bool"
  write_ok :: "path \<Rightarrow> bool"
  shell :: "string \<Rightarrow> (path \<Rightarrow> string option) \<Rightarrow> bool \<times> (path \<Rightarrow> string option)"
  written :: "(path \<times> string) list"
  executed :: "exec_call list"
  console :: "log_line list"

definition resolve :: "world \<Rightarrow> string \<Rightarrow> path" where
  "resolve w p = path_join (cwd w) [p]"

definition readFile :: "world \<Rightarrow> path \<Rightarrow> error + string" where
  "readFile w p = (case store w p of None \<Rightarrow> Inl (FsError p) | Some c \<Rightarrow> Inr c)"

definition readFile_utf8 :: "world \<Rightarrow> path \<Rightarrow> error + string" where
  "readFile_utf8 w p =
     (case readFile w p of Inl e \<Rightarrow> Inl e | Inr bytes \<Rightarrow> Inr (toString_utf8 bytes))"


definition writeFile :: "world \<Rightarrow> path \<Rightarrow> string \<Rightarrow> error + world" where
  "writeFile w p c =
     (if write_ok w p
      then Inr (w\<lparr>store := (store w)(p \<mapsto> c), written := written w @ [(p, c)]\<rparr>)
      else Inl (FsError p))"

section \<open>The helpers of the command-line tool\<close>

record ComponentFile =
  name :: string
  content :: string

record Component =
  files :: "ComponentFile list"
  dependencies :: "string list"

definition CONFIG_FILE :: string where
  "CONFIG_FILE = ''components.yml''"

definition exists :: "world \<Rightarrow> path \<Rightarrow> bool" where
  "exists w filepath = (case readFile w filepath of Inl _ \<Rightarrow> False | Inr _ \<Rightarrow> True)"

definition listAvailableComponents :: "world \<Rightarrow> error + string list" where
  "listAvailableComponents w =
     (case ui_listing w of
        None \<Rightarrow> Inl UIDirUnreadable
      | Some fs \<Rightarrow>
          Inr (map (\<lambda>file. replace file ''.tsx'' '''')
                 (filter (\<lambda>file. endsWith file ''.tsx'') fs)))"

definition readComponentFromUI :: "world \<Rightarrow> string \<Rightarrow> error + Component" where
  "readComponentFromUI w componentName =
     (let componentPath = path_join (cwd w) [''ui'', componentName @ ''.tsx'']
      in if \<not> exists w componentPath
         then Inl (ReadComponentFailed componentName (FileNotFound componentPath))
         else (case readFile_utf8 w componentPath of
                 Inl e \<Rightarrow> Inl (ReadComponentFailed componentName e)
               | Inr c \<Rightarrow>
                   Inr \<lparr>files = [\<lparr>name = componentName @ ''.tsx'', content = c\<rparr>],
                        dependencies =
                          [''class-variance-authority'', ''tailwind-merge'', ''clsx'']
                          @ (if toLowerCase componentName = ''button''
                             then [''@radix-ui/react-slot''] else [])\<rparr>))"

text \<open>\<^verbatim>\<open>exists\<close> never throws, so the \<^verbatim>\<open>catch\<close> of \<^verbatim>\<open>detectPackageManager\<close>, which
  returns npm, is never entered.\<close>

definition detectPackageManager :: "world \<Rightarrow> package_manager" where
  "detectPackageManager w =
     (if exists w (resolve w ''yarn.lock'') then Yarn
      else if exists w (resolve w ''pnpm-lock.yaml'') then Pnpm
      else Npm)"

definition installCommand :: "package_manager \<Rightarrow> string list \<Rightarrow> string" where
  "installCommand packageManager deps =
     (case packageManager of
        Npm \<Rightarrow> ''npm install --save '' @ join '' '' deps
      | Yarn \<Rightarrow> ''yarn add '' @ join '' '' deps
      | Pnpm \<Rightarrow> ''pnpm add '' @ join '' '' deps)"

text \<open>\<^verbatim>\<open>execSync(installCommand, { stdio: 'inherit' })\<close>: the command runs, the files are
  what it leaves, and a non-zero exit throws.\<close>

definition execSync :: "world \<Rightarrow> string \<Rightarrow> bool \<Rightarrow> world \<times> bool" where
  "execSync w cmd inherit =
     (let (ok, st) = shell w cmd (store w)
      in (w\<lparr>store := st,
            executed := executed w @ [\<lparr>command = cmd, stdio_inherit = inherit\<rparr>]\<rparr>, ok))"

definition installDependencies :: "world \<Rightarrow> string list \<Rightarrow> world \<times> error option" where
  "installDependencies w deps =
     (if length deps = 0 then (w, None)
      else let packageManager = detectPackageManager w;
               (w', ok) = execSync w (installCommand packageManager deps) True
           in if ok then (w', None) else (w', Some (InstallFailed packageManager)))"

section \<open>The stages of add\<close>

text \<open>The first loop of \<^verbatim>\<open>add\<close> (cli.ts, lines 230 to 242) and of \<^verbatim>\<open>installComponents\<close>
  (part_000, lines 619 to 631): the accumulator is the pair of \<^verbatim>\<open>allDependencies\<close> and
  \<^verbatim>\<open>radixDependencies\<close>. A component that cannot be read throws out of the loop.\<close>

fun collectDependencies ::
  "world \<Rightarrow> string list \<Rightarrow> string list \<times> string list \<Rightarrow> error + string list \<times> string list"
where
  "collectDependencies w [] acc = Inr acc"
| "collectDependencies w (componentName # rest) (allDependencies, radixDependencies) =
     (case readComponentFromUI w componentName of
        Inl e \<Rightarrow> Inl e
      | Inr component \<Rightarrow>
          collectDependencies w rest
            (foldl set_add allDependencies (dependencies component),
             if toLowerCase componentName = ''button''
             then set_add radixDependencies ''@radix-ui/react-slot''
             else radixDependencies))"

text \<open>The body of the \<^verbatim>\<open>try\<close> of the copy loop: the inner loop over the files of the
  component stops at the first write that throws.\<close>

fun writeFiles :: "world \<Rightarrow> path \<Rightarrow> ComponentFile list \<Rightarrow> world \<times> error option" where
  "writeFiles w componentDir [] = (w, None)"
| "writeFiles w componentDir (file # rest) =
     (case writeFile w (path_join componentDir [name file]) (content file) of
        Inl e \<Rightarrow> (w, Some e)
      | Inr w' \<Rightarrow> writeFiles w' componentDir rest)"

definition copyComponent :: "world \<Rightarrow> path \<Rightarrow> string \<Rightarrow> world \<times> error option" where
  "copyComponent w componentDir componentName =
     (case readComponentFromUI w componentName of
        Inl e \<Rightarrow> (w, Some e)
      | Inr component \<Rightarrow> writeFiles w componentDir (files component))"

text \<open>The copy loop (cli.ts, lines 280 to 295; part_000, lines 649 to 664): the
  accumulator is the pair of \<^verbatim>\<open>installedComponents\<close> and \<^verbatim>\<open>failedComponents\<close>.\<close>

fun copyComponents ::
  "world \<Rightarrow> path \<Rightarrow> string list \<Rightarrow> string list \<times> string list
     \<Rightarrow> world \<times> string list \<times> string list"
where
  "copyComponents w componentDir [] acc = (w, acc)"
| "copyComponents w componentDir (componentName # rest) (installedComponents, failedComponents) =
     (case copyComponent w componentDir componentName of
        (w', None) \<Rightarrow>
          copyComponents w' componentDir rest
            (installedComponents @ [componentName], failedComponents)
      | (w', Some e) \<Rightarrow>
          copyComponents
            (w'\<lparr>console := console w'
                   @ [Line (''Warning: Failed to add '' @ componentName), ErrorMessage e]\<rparr>)
            componentDir rest
            (installedComponents, failedComponents @ [componentName]))"

text \<open>A run ends by \<^verbatim>\<open>process.exit(n)\<close>, or it returns, and the process then ends with
  code 0.\<close>

datatype 'a outcome = Exited nat | Returned 'a

fun exit_code :: "'a outcome \<Rightarrow> nat" where
  "exit_code (Exited n) = n"
| "exit_code (Returned _) = 0"

datatype 'a prompt = Cancelled | Answered 'a

record summary =
  installed :: "string list"
  failed :: "string list"
  allDeps :: "string list"
  radixDeps :: "string list"

text \<open>An installer call whose failure is caught and printed (cli.ts, lines 246 to 273).\<close>

definition install_or_warn :: "world \<Rightarrow> string list \<Rightarrow> string \<Rightarrow> world" where
  "install_or_warn w deps warning =
     (if length deps > 0
      then (case installDependencies w deps of
              (w', None) \<Rightarrow> w'
            | (w', Some e) \<Rightarrow> w'\<lparr>console := console w' @ [Line warning, ErrorMessage e]\<rparr>)
      else w)"

text \<open>\<^verbatim>\<open>add\<close> of src/cli/cli.ts; \<open>answer\<close> is what the multiselect prompt returns.\<close>

definition cli_add :: "world \<Rightarrow> string list prompt \<Rightarrow> world \<times> summary outcome" where
  "cli_add w answer =
     (case listAvailableComponents w of
        Inl e \<Rightarrow> (w, Exited 1)
      | Inr components \<Rightarrow>
          if length components = 0 then (w, Exited 1)
          else (case answer of
                  Cancelled \<Rightarrow> (w, Exited 1)
                | Answered selectedComponents \<Rightarrow>
                    let componentDir = path_join (cwd w) [''components'', ''ui'']
                    in if \<not> mkdir_ok w componentDir then (w, Exited 1)
                       else (case collectDependencies w selectedComponents ([], []) of
                               Inl e \<Rightarrow> (w, Exited 1)
                             | Inr (allDependencies, radixDependencies) \<Rightarrow>
                                 let w1 = install_or_warn w allDependencies
                                            ''Warning: Failed to install dependencies'';
                                     w2 = install_or_warn w1 radixDependencies
                                            ''Warning: Failed to install Radix UI dependencies'';
                                     (w3, installedComponents, failedComponents) =
                                        copyComponents w2 componentDir selectedComponents ([], [])
                                 in (w3, Returned \<lparr>installed = installedComponents,
                                                    failed = failedComponents,
                                                    allDeps = allDependencies,
                                                    radixDeps = radixDependencies\<rparr>))))"

text \<open>\<^verbatim>\<open>installComponents\<close> of part_000: the installer is called with no \<^verbatim>\<open>try\<close> of
  its own, so its error reaches the \<^verbatim>\<open>catch\<close> of the whole function, which exits with 1.\<close>

definition installComponents :: "world \<Rightarrow> string list \<Rightarrow> world \<times> summary outcome" where
  "installComponents w components =
     (case listAvailableComponents w of
        Inl e \<Rightarrow> (w, Exited 1)
      | Inr availableComponents \<Rightarrow>
          let invalidComponents = filter (\<lambda>comp. comp \<notin> set availableComponents) components
          in if length invalidComponents > 0 then (w, Exited 1)
             else let componentDir = path_join (cwd w) [''components'', ''ui'']
                  in if \<not> mkdir_ok w componentDir then (w, Exited 1)
                     else (case collectDependencies w components ([], []) of
                             Inl e \<Rightarrow> (w, Exited 1)
                           | Inr (allDependencies, radixDependencies) \<Rightarrow>
                               (case (if length allDependencies > 0
                                      then installDependencies w allDependencies
                                      else (w, None)) of
                                  (w1, Some e) \<Rightarrow> (w1, Exited 1)
                                | (w1, None) \<Rightarrow>
                                    (case (if length radixDependencies > 0
                                           then installDependencies w1 radixDependencies
                                           else (w1, None)) of
                                       (w2, Some e) \<Rightarrow> (w2, Exited 1)
                                     | (w2, None) \<Rightarrow>
                                         let (w3, installedComponents, failedComponents) =
                                               copyComponents w2 componentDir components ([], [])
                                         in (w3, Returned \<lparr>installed = installedComponents,
                                                            failed = failedComponents,
                                                            allDeps = allDependencies,
                                                            radixDeps = radixDependencies\<rparr>)))))"

text \<open>\<^verbatim>\<open>add\<close> of part_000: \<open>components\<close> are the command-line arguments after
  \<^verbatim>\<open>add\<close>, \<open>answer\<close> what the multiselect prompt returns when it is shown.\<close>

definition add :: "world \<Rightarrow> string list \<Rightarrow> string list prompt \<Rightarrow> world \<times> summary outcome" where
  "add w components answer =
     (if length components > 0 then installComponents w components
      else (case listAvailableComponents w of
              Inl e \<Rightarrow> (w, Exited 1)
            | Inr availableComponents \<Rightarrow>
                if length availableComponents = 0 then (w, Exited 1)
                else (case answer of
                        Cancelled \<Rightarrow> (w, Exited 1)
                      | Answered selectedComponents \<Rightarrow> installComponents w selectedComponents)))"

section \<open>init\<close>




section \<open>Auxiliary notions for the statements\<close>

text \<open>The accumulators the dependency loop can reach: nothing before the first
  component, then the three baseline dependencies, with \<^verbatim>\<open>@radix-ui/react-slot\<close> in both
  sets once a button has been seen.\<close>

definition agg_state :: "bool \<Rightarrow> bool \<Rightarrow> string list \<times> string list" where
  "agg_state started button =
     (if started
      then [''class-variance-authority'', ''tailwind-merge'', ''clsx'']
           @ (if button then [''@radix-ui/react-slot''] else [])
      else [],
      if button then [''@radix-ui/react-slot''] else [])"

definition has_button :: "string list \<Rightarrow> bool" where
  "has_button ns = (\<exists>n \<in> set ns. toLowerCase n = ''button'')"

text \<open>The source and the target file of a component under the working directory \<open>c\<close>,
  and whether the copy of a component succeeds: its source can be read and its target
  can be written.\<close>

definition source_path :: "path \<Rightarrow> string \<Rightarrow> path" where
  "source_path c n = c @ [''ui'', n @ ''.tsx'']"

definition target_path :: "path \<Rightarrow> string \<Rightarrow> path" where
  "target_path c n = c @ [''components'', ''ui'', n @ ''.tsx'']"

definition copy_ok :: "world \<Rightarrow> string \<Rightarrow> bool" where
  "copy_ok w n =
     (store w (source_path (cwd w) n) \<noteq> None \<and> write_ok w (target_path (cwd w) n))"

text \<open>The world after one round of the copy loop.\<close>

definition after_copy :: "world \<Rightarrow> string \<Rightarrow> world" where
  "after_copy w n =
     (case copyComponent w (cwd w @ [''components'', ''ui'']) n of
        (w', None) \<Rightarrow> w'
      | (w', Some e) \<Rightarrow>
          w'\<lparr>console := console w' @ [Line (''Warning: Failed to add '' @ n), ErrorMessage e]\<rparr>)"

section \<open>Example worlds\<close>

text \<open>A project at \<^verbatim>\<open>/home/app\<close> with two components in \<^verbatim>\<open>ui\<close>, an old copy of one of
  them in \<^verbatim>\<open>components/ui\<close>, no lockfile, and a package manager that succeeds and
  leaves the files as they are.\<close>

definition demo_world :: world where
  "demo_world =
     \<lparr>cwd = [''home'', ''app''],
      store = [[''home'', ''app'', ''ui'', ''button.tsx''] \<mapsto> ''export const Button = 1'',
               [''home'', ''app'', ''ui'', ''card.tsx''] \<mapsto> ''export const Card = 2'',
               [''home'', ''app'', ''components'', ''ui'', ''card.tsx''] \<mapsto> ''stale''],
      unreadable = (\<lambda>_. False),
      ui_listing = Some [''button.tsx'', ''card.tsx'', ''notes.md''],
      mkdir_ok = (\<lambda>_. True),
      write_ok = (\<lambda>_. True),
      shell = (\<lambda>cmd st. (True, st)),
      written = [],
      executed = [],
      console = []\<rparr>"

text \<open>The same project with a lockfile of yarn, of pnpm, and of both.\<close>

definition yarn_world :: world where
  "yarn_world = demo_world\<lparr>store := (store demo_world)([''home'', ''app'', ''yarn.lock''] \<mapsto> ''y'')\<rparr>"

definition pnpm_world :: world where
  "pnpm_world =
     demo_world\<lparr>store := (store demo_world)([''home'', ''app'', ''pnpm-lock.yaml''] \<mapsto> ''p'')\<rparr>"



text \<open>The project with a target file that cannot be written.\<close>

definition readonly_world :: world where
  "readonly_world =
     demo_world\<lparr>write_ok := (\<lambda>p. p \<noteq> [''home'', ''app'', ''components'', ''ui'', ''card.tsx''])\<rparr>"

text \<open>The project with a package manager that exits with a non-zero code.\<close>

definition offline_world :: world where
  "offline_world = demo_world\<lparr>shell := (\<lambda>cmd st. (False, st))\<rparr>"

text \<open>The project with a component whose source is not well-formed UTF-8: the bytes
  FF 41.\<close>

definition binary_world :: world where
  "binary_world =
     demo_world\<lparr>store := (store demo_world)([''home'', ''app'', ''ui'', ''bin.tsx'']
                                \<mapsto> [CHR 0xFF, CHR 0x41])\<rparr>"

text \<open>The project with a package manager that leaves a lockfile holding the command
  it was run with.\<close>

definition locking_world :: world where
  "locking_world =
     demo_world\<lparr>shell := (\<lambda>cmd st. (True, st([''home'', ''app'', ''package-lock.json''] \<mapsto> cmd)))\<rparr>"

text \<open>The project with a package manager that fails on the second command of a run
  with a button, and on nothing else.\<close>

definition radix_offline_world :: world where
  "radix_offline_world =
     demo_world\<lparr>shell := (\<lambda>cmd st. (cmd \<noteq> ''npm install --save @radix-ui/react-slot'', st))\<rparr>"



section \<open>UTF-8\<close>

lemma decode_one:
  assumes "(of_char a :: nat) \<le> 0x7F"
  shows "utf8_decode [] 0 0x80 0xBF (a # r) = a # utf8_decode [] 0 0x80 0xBF r"
  using assms by (simp add: Let_def)

lemma decode_two:
  assumes "0xC2 \<le> (of_char a :: nat)" "(of_char a :: nat) \<le> 0xDF" "in_range 0x80 0xBF b"
  shows "utf8_decode [] 0 0x80 0xBF (a # b # r) = a # b # utf8_decode [] 0 0x80 0xBF r"
  using assms by (simp add: Let_def in_range_def)

lemma decode_three:
  assumes "0xE0 \<le> (of_char a :: nat)" "(of_char a :: nat) \<le> 0xEF"
    and "in_range (if (of_char a :: nat) = 0xE0 then 0xA0 else 0x80)
           (if (of_char a :: nat) = 0xED then 0x9F else 0xBF) b"
    and "in_range 0x80 0xBF c"
  shows "utf8_decode [] 0 0x80 0xBF (a # b # c # r) = a # b # c # utf8_decode [] 0 0x80 0xBF r"
  using assms by (simp add: Let_def in_range_def)

lemma decode_four:
  assumes "0xF0 \<le> (of_char a :: nat)" "(of_char a :: nat) \<le> 0xF4"
    and "in_range (if (of_char a :: nat) = 0xF0 then 0x90 else 0x80)
           (if (of_char a :: nat) = 0xF4 then 0x8F else 0xBF) b"
    and "in_range 0x80 0xBF c" and "in_range 0x80 0xBF d"
  shows "utf8_decode [] 0 0x80 0xBF (a # b # c # d # r)
           = a # b # c # d # utf8_decode [] 0 0x80 0xBF r"
  using assms by (simp add: Let_def in_range_def)

text \<open>Decoding leaves well-formed UTF-8 as it is.\<close>

lemma toString_utf8_well_formed:
  "well_formed_utf8 bytes \<Longrightarrow> toString_utf8 bytes = bytes"
  unfolding toString_utf8_def
proof (induction bytes rule: well_formed_utf8.induct)
  case 1
  then show ?case by simp
next
  case (2 a bs)
  let ?n = "of_char a :: nat"
  consider (one) "?n \<le> 0x7F"
    | (two) "0xC2 \<le> ?n" "?n \<le> 0xDF"
    | (three) "0xE0 \<le> ?n" "?n \<le> 0xEF"
    | (four) "0xF0 \<le> ?n" "?n \<le> 0xF4"
    using "2.prems" by (auto simp: Let_def split: if_splits)
  then show ?case
  proof cases
    case one
    then have "well_formed_utf8 bs"
      using "2.prems" by (simp add: Let_def)
    then show ?thesis
      using "2.IH"(1) [OF refl one] one by (simp only: decode_one)
  next
    case two
    then obtain b r where bs: "bs = b # r" and b: "in_range 0x80 0xBF b" and r: "well_formed_utf8 r"
      using "2.prems" by (auto simp: Let_def split: list.splits)
    have "utf8_decode [] 0 0x80 0xBF r = r"
      using "2.IH"(2) [OF refl _ _ bs r] two by simp
    then show ?thesis
      using decode_two [OF two b, of r] by (simp only: bs)
  next
    case three
    then obtain b c r where bs: "bs = b # c # r"
      and b: "in_range (if ?n = 0xE0 then 0xA0 else 0x80) (if ?n = 0xED then 0x9F else 0xBF) b"
      and c: "in_range 0x80 0xBF c" and r: "well_formed_utf8 r"
      using "2.prems" by (auto simp: Let_def split: list.splits if_splits)
    have "utf8_decode [] 0 0x80 0xBF r = r"
      using "2.IH"(3) [OF refl _ _ _ bs _ r] three by simp
    then show ?thesis
      using decode_three [OF three b c, of r] by (simp only: bs)
  next
    case four
    then obtain b c d r where bs: "bs = b # c # d # r"
      and b: "in_range (if ?n = 0xF0 then 0x90 else 0x80) (if ?n = 0xF4 then 0x8F else 0xBF) b"
      and c: "in_range 0x80 0xBF c" and d: "in_range 0x80 0xBF d" and r: "well_formed_utf8 r"
      using "2.prems" by (auto simp: Let_def split: list.splits if_splits)
    have "utf8_decode [] 0 0x80 0xBF r = r"
      using "2.IH"(4) [OF refl _ _ _ _ bs _ _ r] four by simp
    then show ?thesis
      using decode_four [OF four b c d, of r] by (simp only: bs)
  qed
qed

text \<open>The texts of the example worlds are ASCII.\<close>

lemma toString_utf8_examples:
  "toString_utf8 ''export const Button = 1'' = ''export const Button = 1''"
  "toString_utf8 ''export const Card = 2'' = ''export const Card = 2''"
  "toString_utf8 ''B'' = ''B''"
  by (rule toString_utf8_well_formed, simp add: Let_def)+

section \<open>Paths\<close>

lemma split_on_no_delim: "d \<notin> set s \<Longrightarrow> split_on d s = [s]"
  by (induction s) auto

lemma tsx_not_dots:
  "n @ ''.tsx'' \<noteq> []" "n @ ''.tsx'' \<noteq> ''.''" "n @ ''.tsx'' \<noteq> ''..''"
proof -
  have "length (n @ ''.tsx'') \<ge> 4" by simp
  then show "n @ ''.tsx'' \<noteq> []" "n @ ''.tsx'' \<noteq> ''.''" "n @ ''.tsx'' \<noteq> ''..''"
    by auto
qed

lemma path_join_ui:
  assumes "CHR ''/'' \<notin> set n"
  shows "path_join base [''ui'', n @ ''.tsx''] = base @ [''ui'', n @ ''.tsx'']"
proof -
  have "split_on CHR ''/'' (n @ ''.tsx'') = [n @ ''.tsx'']"
    using assms by (intro split_on_no_delim) simp
  then show ?thesis
    by (simp add: path_join_def norm_push_def tsx_not_dots)
qed

lemma componentDir_eq:
  "path_join base [''components'', ''ui''] = base @ [''components'', ''ui'']"
  by (simp add: path_join_def norm_push_def)

lemma path_join_target:
  assumes "CHR ''/'' \<notin> set n"
  shows "path_join (base @ [''components'', ''ui'']) [n @ ''.tsx'']
           = base @ [''components'', ''ui'', n @ ''.tsx'']"
proof -
  have "split_on CHR ''/'' (n @ ''.tsx'') = [n @ ''.tsx'']"
    using assms by (intro split_on_no_delim) simp
  then show ?thesis
    by (simp add: path_join_def norm_push_def tsx_not_dots)
qed

lemma resolve_plain:
  "resolve w ''yarn.lock'' = cwd w @ [''yarn.lock'']"
  "resolve w ''pnpm-lock.yaml'' = cwd w @ [''pnpm-lock.yaml'']"
  "resolve w CONFIG_FILE = cwd w @ [''components.yml'']"
  by (simp_all add: resolve_def path_join_def norm_push_def CONFIG_FILE_def)

lemma exists_store: "exists w p \<longleftrightarrow> store w p \<noteq> None"
  by (simp add: exists_def readFile_def split: option.splits)

section \<open>The package manager detector\<close>



section \<open>The component reader\<close>

lemma readComponentFromUI_cases:
  "readComponentFromUI w n =
     (case store w (path_join (cwd w) [''ui'', n @ ''.tsx'']) of
        None \<Rightarrow>
          Inl (ReadComponentFailed n (FileNotFound (path_join (cwd w) [''ui'', n @ ''.tsx''])))
      | Some c \<Rightarrow>
          Inr \<lparr>files = [\<lparr>name = n @ ''.tsx'', content = toString_utf8 c\<rparr>],
               dependencies =
                 [''class-variance-authority'', ''tailwind-merge'', ''clsx'']
                 @ (if toLowerCase n = ''button'' then [''@radix-ui/react-slot''] else [])\<rparr>)"
  by (simp add: readComponentFromUI_def exists_store readFile_utf8_def readFile_def
      split: option.splits)



section \<open>The installer\<close>

lemma installDependencies_empty: "installDependencies w [] = (w, None)"
  by (simp add: installDependencies_def)

lemma installDependencies_nonempty:
  assumes "deps \<noteq> []"
  shows "installDependencies w deps =
     (w\<lparr>store := snd (shell w (installCommand (detectPackageManager w) deps) (store w)),
        executed := executed w @ [\<lparr>command = installCommand (detectPackageManager w) deps,
                                    stdio_inherit = True\<rparr>]\<rparr>,
      if fst (shell w (installCommand (detectPackageManager w) deps) (store w)) then None
      else Some (InstallFailed (detectPackageManager w)))"
  using assms
  by (simp add: installDependencies_def execSync_def Let_def split: prod.splits)

text \<open>
  Claim C7. \<^verbatim>\<open>installDependencies\<close> does nothing when there is no dependency. For
  every other list it builds one command, \<^verbatim>\<open>npm install --save\<close>, \<^verbatim>\<open>yarn add\<close> or
  \<^verbatim>\<open>pnpm add\<close> by the detected package manager, followed by the dependencies joined
  with single spaces, and executes it once with the standard streams inherited: the
  files are those the command leaves, the log of executed commands gains this one
  entry, and the call fails exactly when the command does not exit with zero.
\<close>

theorem installDependencies_one_command:
  "(deps = [] \<longrightarrow> installDependencies w deps = (w, None))
   \<and> (deps \<noteq> [] \<longrightarrow>
        (let cmd = (case detectPackageManager w of
                      Npm \<Rightarrow> ''npm install --save ''
                    | Yarn \<Rightarrow> ''yarn add ''
                    | Pnpm \<Rightarrow> ''pnpm add '') @ join '' '' deps
         in installDependencies w deps
              = (w\<lparr>store := snd (shell w cmd (store w)),
                   executed := executed w @ [\<lparr>command = cmd, stdio_inherit = True\<rparr>]\<rparr>,
                 if fst (shell w cmd (store w)) then None
                 else Some (InstallFailed (detectPackageManager w)))
            \<and> executed (fst (installDependencies w deps))
                = executed w @ [\<lparr>command = cmd, stdio_inherit = True\<rparr>]))"
  by (simp add: installDependencies_empty installDependencies_nonempty installCommand_def Let_def
      split: package_manager.splits)

theorem installDependencies_one_command_witness:
  "executed (fst (installDependencies yarn_world [''clsx'', ''tailwind-merge'']))
     = [\<lparr>command = ''yarn add clsx tailwind-merge'', stdio_inherit = True\<rparr>]
   \<and> store (fst (installDependencies locking_world [''clsx'']))
        [''home'', ''app'', ''package-lock.json''] = Some ''npm install --save clsx''
   \<and> snd (installDependencies locking_world [''clsx'']) = None
   \<and> snd (installDependencies offline_world [''clsx'']) = Some (InstallFailed Npm)
   \<and> installDependencies pnpm_world [] = (pnpm_world, None)"
proof -
  have y: "detectPackageManager yarn_world = Yarn"
    by (simp add: detectPackageManager_def resolve_plain exists_store yarn_world_def demo_world_def)
  have d: "detectPackageManager locking_world = Npm" "detectPackageManager offline_world = Npm"
    by (simp_all add: detectPackageManager_def resolve_plain exists_store locking_world_def
        offline_world_def demo_world_def)
  have e: "executed yarn_world = []"
    by (simp add: yarn_world_def demo_world_def)
  have n: "[''clsx'', ''tailwind-merge''] \<noteq> []" "[''clsx''] \<noteq> []"
    by simp_all
  note a = installDependencies_one_command
    [of "[''clsx'', ''tailwind-merge'']" yarn_world, THEN conjunct2, rule_format, OF n(1)]
  note b = installDependencies_one_command
    [of "[''clsx'']" locking_world, THEN conjunct2, rule_format, OF n(2)]
  note c = installDependencies_one_command
    [of "[''clsx'']" offline_world, THEN conjunct2, rule_format, OF n(2)]
  note z = installDependencies_one_command [of "[]" pnpm_world, THEN conjunct1, rule_format]
  have a': "executed (fst (installDependencies yarn_world [''clsx'', ''tailwind-merge'']))
     = [\<lparr>command = ''yarn add clsx tailwind-merge'', stdio_inherit = True\<rparr>]"
    using a by (simp add: y e Let_def)
  have b': "store (fst (installDependencies locking_world [''clsx'']))
        [''home'', ''app'', ''package-lock.json''] = Some ''npm install --save clsx''"
      "snd (installDependencies locking_world [''clsx'']) = None"
    using b unfolding d Let_def by (simp_all add: locking_world_def)
  have c': "snd (installDependencies offline_world [''clsx'']) = Some (InstallFailed Npm)"
    using c unfolding d Let_def by (simp add: offline_world_def)
  show ?thesis
    using a' b' c' z by simp
qed

section \<open>The dependency aggregator\<close>

lemma collect_step:
  assumes "readComponentFromUI w n = Inr c" and "button \<longrightarrow> started"
  shows "(foldl set_add (fst (agg_state started button)) (dependencies c),
          if toLowerCase n = ''button''
          then set_add (snd (agg_state started button)) ''@radix-ui/react-slot''
          else snd (agg_state started button))
         = agg_state True (button \<or> toLowerCase n = ''button'')"
proof -
  have d: "dependencies c = [''class-variance-authority'', ''tailwind-merge'', ''clsx'']
             @ (if toLowerCase n = ''button'' then [''@radix-ui/react-slot''] else [])"
    using assms(1)
    by (auto simp: readComponentFromUI_cases split: option.splits)
  show ?thesis
    using assms(2) unfolding d
    by (cases started; cases button; cases "toLowerCase n = ''button''")
       (simp_all add: agg_state_def set_add_def)
qed

lemma collect_closed:
  assumes "button \<longrightarrow> started"
  shows "collectDependencies w ns (agg_state started button) =
     (if \<forall>n \<in> set ns. exists w (path_join (cwd w) [''ui'', n @ ''.tsx''])
      then Inr (agg_state (started \<or> ns \<noteq> []) (button \<or> has_button ns))
      else Inl (case find (\<lambda>n. \<not> exists w (path_join (cwd w) [''ui'', n @ ''.tsx''])) ns of
                  Some n \<Rightarrow> ReadComponentFailed n (FileNotFound (path_join (cwd w) [''ui'', n @ ''.tsx'']))
                | None \<Rightarrow> UIDirUnreadable))"
  using assms
proof (induction ns arbitrary: started button)
  case Nil
  then show ?case by (simp add: has_button_def)
next
  case (Cons n ns)
  show ?case
  proof (cases "exists w (path_join (cwd w) [''ui'', n @ ''.tsx''])")
    case False
    then have "readComponentFromUI w n
        = Inl (ReadComponentFailed n (FileNotFound (path_join (cwd w) [''ui'', n @ ''.tsx''])))"
      by (simp add: readComponentFromUI_cases exists_store)
    then show ?thesis using False
      by (cases "agg_state started button") simp
  next
    case True
    then obtain c where c: "readComponentFromUI w n = Inr c"
      by (auto simp: readComponentFromUI_cases exists_store)
    obtain a b where ab: "agg_state started button = (a, b)"
      by (cases "agg_state started button")
    have step: "(foldl set_add a (dependencies c),
                 if toLowerCase n = ''button'' then set_add b ''@radix-ui/react-slot'' else b)
                = agg_state True (button \<or> toLowerCase n = ''button'')"
      using collect_step [OF c Cons.prems] unfolding ab fst_conv snd_conv .
    have "collectDependencies w (n # ns) (agg_state started button)
            = collectDependencies w ns
                (foldl set_add a (dependencies c),
                 if toLowerCase n = ''button'' then set_add b ''@radix-ui/react-slot'' else b)"
      by (simp add: ab c)
    also have "\<dots> = collectDependencies w ns (agg_state True (button \<or> toLowerCase n = ''button''))"
      by (simp only: step)
    also have "\<dots> = (if \<forall>n \<in> set ns. exists w (path_join (cwd w) [''ui'', n @ ''.tsx''])
      then Inr (agg_state (True \<or> ns \<noteq> []) ((button \<or> toLowerCase n = ''button'') \<or> has_button ns))
      else Inl (case find (\<lambda>n. \<not> exists w (path_join (cwd w) [''ui'', n @ ''.tsx''])) ns of
                  Some n \<Rightarrow> ReadComponentFailed n (FileNotFound (path_join (cwd w) [''ui'', n @ ''.tsx'']))
                | None \<Rightarrow> UIDirUnreadable))"
      by (rule Cons.IH) simp
    finally show ?thesis using True
      by (simp add: has_button_def)
  qed
qed

lemma collect_from_empty:
  "collectDependencies w ns ([], []) =
     (if \<forall>n \<in> set ns. exists w (path_join (cwd w) [''ui'', n @ ''.tsx''])
      then Inr (agg_state (ns \<noteq> []) (has_button ns))
      else Inl (case find (\<lambda>n. \<not> exists w (path_join (cwd w) [''ui'', n @ ''.tsx''])) ns of
                  Some n \<Rightarrow> ReadComponentFailed n (FileNotFound (path_join (cwd w) [''ui'', n @ ''.tsx'']))
                | None \<Rightarrow> UIDirUnreadable))"
  using collect_closed [of False False w ns] by (simp add: agg_state_def)

lemma agg_state_set_eq:
  assumes "set xs = set ys"
  shows "agg_state (xs \<noteq> []) (has_button xs) = agg_state (ys \<noteq> []) (has_button ys)"
proof -
  have "(xs \<noteq> []) = (ys \<noteq> [])"
    using assms by (metis set_empty)
  moreover have "has_button xs = has_button ys"
    using assms by (simp add: has_button_def)
  ultimately show ?thesis by simp
qed

text \<open>
  Claim C6. Dependency aggregation is independent of order and of repetition: over the
  same file system, two sequences of component names with the same set of names either
  both fail, or both return the same general and the same special-cased set (in fact
  the same insertion order in each).
\<close>

theorem aggregation_order_independent:
  assumes "set xs = set ys"
  shows "(isl (collectDependencies w xs ([], [])) \<longleftrightarrow> isl (collectDependencies w ys ([], [])))
         \<and> (\<forall>r. collectDependencies w xs ([], []) = Inr r
                \<longleftrightarrow> collectDependencies w ys ([], []) = Inr r)"
  using assms agg_state_set_eq [OF assms] by (simp add: collect_from_empty)

theorem aggregation_order_independent_witness:
  "set [''button'', ''card''] = set [''card'', ''button'', ''card'']
   \<and> collectDependencies demo_world [''card'', ''button'', ''card''] ([], [])
       = Inr ([''class-variance-authority'', ''tailwind-merge'', ''clsx'', ''@radix-ui/react-slot''],
              [''@radix-ui/react-slot''])"
proof -
  have s: "set [''button'', ''card''] = set [''card'', ''button'', ''card'']"
    by auto
  have c: "collectDependencies demo_world [''button'', ''card''] ([], [])
       = Inr ([''class-variance-authority'', ''tailwind-merge'', ''clsx'', ''@radix-ui/react-slot''],
              [''@radix-ui/react-slot''])"
    by (simp add: readComponentFromUI_cases path_join_def norm_push_def demo_world_def
        set_add_def toLowerCase_def lower_char_def)
  show ?thesis
    using aggregation_order_independent [OF s, of demo_world] c s by blast
qed

text \<open>
  Claim C4, as the code has it. The special-cased set is not disjoint from the general
  set but contained in it: it holds \<^verbatim>\<open>@radix-ui/react-slot\<close> when a selected name
  lower-cases to \<^verbatim>\<open>button\<close> and is empty otherwise, and the general set holds the
  three baseline dependencies followed by the special-cased set (the reader already
  lists the dependency of a button among its dependencies).
\<close>

theorem special_set_within_general:
  assumes "collectDependencies w ns ([], []) = Inr (allDependencies, radixDependencies)"
  shows "set radixDependencies \<subseteq> set allDependencies
         \<and> radixDependencies
             = (if \<exists>n \<in> set ns. toLowerCase n = ''button'' then [''@radix-ui/react-slot''] else [])
         \<and> allDependencies
             = (if ns = [] then []
                else [''class-variance-authority'', ''tailwind-merge'', ''clsx''] @ radixDependencies)"
  using assms
  by (auto simp: collect_from_empty agg_state_def has_button_def split: if_splits)


theorem special_set_within_general_witness:
  "collectDependencies demo_world [''card'', ''button''] ([], [])
     = Inr ([''class-variance-authority'', ''tailwind-merge'', ''clsx'', ''@radix-ui/react-slot''],
            [''@radix-ui/react-slot''])
   \<and> set [''@radix-ui/react-slot'']
       \<subseteq> set [''class-variance-authority'', ''tailwind-merge'', ''clsx'', ''@radix-ui/react-slot'']"
proof -
  have c: "collectDependencies demo_world [''card'', ''button''] ([], [])
     = Inr ([''class-variance-authority'', ''tailwind-merge'', ''clsx'', ''@radix-ui/react-slot''],
            [''@radix-ui/react-slot''])"
    by (simp add: readComponentFromUI_cases path_join_def norm_push_def demo_world_def
        set_add_def toLowerCase_def lower_char_def)
  show ?thesis
    using special_set_within_general [OF c] c by blast
qed

text \<open>Claim C4, as stated, fails for a batch that holds a button: the dependency of
  the special-cased set is a member of the general set too.\<close>

theorem special_set_disjoint_counterexample:
  "collectDependencies demo_world [''button''] ([], [])
     = Inr ([''class-variance-authority'', ''tailwind-merge'', ''clsx'', ''@radix-ui/react-slot''],
            [''@radix-ui/react-slot''])
   \<and> ''@radix-ui/react-slot''
       \<in> set [''class-variance-authority'', ''tailwind-merge'', ''clsx'', ''@radix-ui/react-slot'']
         \<inter> set [''@radix-ui/react-slot'']"
  by (simp add: readComponentFromUI_cases path_join_def norm_push_def demo_world_def
      set_add_def toLowerCase_def lower_char_def)

section \<open>Validation of explicit names\<close>

lemma installComponents_invalid:
  assumes "listAvailableComponents w = Inr avail" and "\<exists>c \<in> set components. c \<notin> set avail"
  shows "installComponents w components = (w, Exited 1)"
proof -
  have "filter (\<lambda>comp. comp \<notin> set avail) components \<noteq> []"
    using assms(2) by (simp add: filter_empty_conv)
  then show ?thesis
    using assms(1) by (simp add: installComponents_def)
qed

text \<open>
  Claim C8. When \<^verbatim>\<open>add\<close> is given names on the command line and one of them is not
  among the available component names, the run exits with code 1, and nothing has been
  run or changed: no command of a package manager is executed.
\<close>

theorem add_unknown_name_exits:
  assumes "components \<noteq> []"
    and "listAvailableComponents w = Inr avail"
    and "\<exists>c \<in> set components. c \<notin> set avail"
  shows "exit_code (snd (add w components answer)) = 1
         \<and> executed (fst (add w components answer)) = executed w
         \<and> fst (add w components answer) = w"
  using assms(1) installComponents_invalid [OF assms(2,3)]
  by (simp add: add_def)

theorem add_unknown_name_exits_witness:
  "listAvailableComponents demo_world = Inr [''button'', ''card'']
   \<and> snd (add demo_world [''card'', ''tooltip''] Cancelled) = Exited 1
   \<and> executed (fst (add demo_world [''card'', ''tooltip''] Cancelled)) = []"
proof -
  have l: "listAvailableComponents demo_world = Inr [''button'', ''card'']"
    by (simp add: listAvailableComponents_def endsWith_def demo_world_def)
  have n: "[''card'', ''tooltip''] \<noteq> []" by simp
  have i: "\<exists>c \<in> set [''card'', ''tooltip'']. c \<notin> set [''button'', ''card'']" by simp
  have e: "executed demo_world = []" by (simp add: demo_world_def)
  show ?thesis
    using add_unknown_name_exits [OF n l i, of Cancelled] l e
    by (cases "snd (add demo_world [''card'', ''tooltip''] Cancelled)") simp_all
qed

section \<open>init\<close>




section \<open>The copy stage\<close>

lemma copyComponent_plain:
  assumes "CHR ''/'' \<notin> set n"
  shows "copyComponent w (cwd w @ [''components'', ''ui'']) n =
     (case store w (source_path (cwd w) n) of
        None \<Rightarrow> (w, Some (ReadComponentFailed n (FileNotFound (source_path (cwd w) n))))
      | Some c \<Rightarrow>
          if write_ok w (target_path (cwd w) n)
          then (w\<lparr>store := (store w)(target_path (cwd w) n \<mapsto> toString_utf8 c),
                  written := written w @ [(target_path (cwd w) n, toString_utf8 c)]\<rparr>, None)
          else (w, Some (FsError (target_path (cwd w) n))))"
  using assms
  by (simp add: copyComponent_def readComponentFromUI_cases path_join_ui path_join_target
      writeFile_def source_path_def target_path_def split: option.splits)

lemma source_not_target: "source_path c m \<noteq> target_path c n"
proof
  assume "source_path c m = target_path c n"
  then have "length (source_path c m) = length (target_path c n)" by simp
  then show False by (simp add: source_path_def target_path_def)
qed

lemma target_path_inj: "target_path c m = target_path c n \<longleftrightarrow> m = n"
  by (simp add: target_path_def)

lemma copyComponent_None_iff:
  assumes "CHR ''/'' \<notin> set n"
  shows "snd (copyComponent w (cwd w @ [''components'', ''ui'']) n) = None \<longleftrightarrow> copy_ok w n"
  by (simp add: copyComponent_plain [OF assms] copy_ok_def split: option.splits)

lemma after_copy_frame:
  assumes "CHR ''/'' \<notin> set n"
  shows "cwd (after_copy w n) = cwd w" and "write_ok (after_copy w n) = write_ok w"
    and "executed (after_copy w n) = executed w"
  by (simp_all add: after_copy_def copyComponent_plain [OF assms] split: option.splits)

lemma after_copy_store:
  assumes "CHR ''/'' \<notin> set n"
  shows "store (after_copy w n) p =
           (if copy_ok w n \<and> p = target_path (cwd w) n
            then map_option toString_utf8 (store w (source_path (cwd w) n)) else store w p)"
  by (auto simp: after_copy_def copyComponent_plain [OF assms] copy_ok_def split: option.splits)

lemma after_copy_written:
  assumes "CHR ''/'' \<notin> set n"
  shows "written (after_copy w n) =
           written w @ (if copy_ok w n
                        then [(target_path (cwd w) n, toString_utf8 (the (store w (source_path (cwd w) n))))]
                        else [])"
  by (auto simp: after_copy_def copyComponent_plain [OF assms] copy_ok_def split: option.splits)

lemma after_copy_source:
  assumes "CHR ''/'' \<notin> set n"
  shows "store (after_copy w n) (source_path (cwd w) m) = store w (source_path (cwd w) m)"
  by (simp add: after_copy_store [OF assms] source_not_target)

lemma after_copy_ok:
  assumes "CHR ''/'' \<notin> set n"
  shows "copy_ok (after_copy w n) = copy_ok w"
  by (rule ext) (simp add: copy_ok_def after_copy_frame [OF assms] after_copy_source [OF assms])

lemma copyComponents_Cons:
  "copyComponents w (cwd w @ [''components'', ''ui'']) (n # ns) (ins, fl) =
     copyComponents (after_copy w n) (cwd w @ [''components'', ''ui'']) ns
       (if snd (copyComponent w (cwd w @ [''components'', ''ui'']) n) = None
        then (ins @ [n], fl) else (ins, fl @ [n]))"
  by (simp add: after_copy_def split: prod.splits option.splits)

lemma copyComponents_lists:
  assumes "\<forall>n \<in> set ns. CHR ''/'' \<notin> set n"
  shows "snd (copyComponents w (cwd w @ [''components'', ''ui'']) ns (ins, fl))
           = (ins @ filter (copy_ok w) ns, fl @ filter (\<lambda>n. \<not> copy_ok w n) ns)"
  using assms
proof (induction ns arbitrary: w ins fl)
  case Nil
  then show ?case by simp
next
  case (Cons n ns)
  then have n: "CHR ''/'' \<notin> set n" and ns: "\<forall>n \<in> set ns. CHR ''/'' \<notin> set n"
    by simp_all
  have ih: "\<And>i f. snd (copyComponents (after_copy w n) (cwd w @ [''components'', ''ui'']) ns (i, f))
               = (i @ filter (copy_ok w) ns, f @ filter (\<lambda>n. \<not> copy_ok w n) ns)"
    using Cons.IH [OF ns, of "after_copy w n"]
    by (simp add: after_copy_frame [OF n] after_copy_ok [OF n])
  show ?case
    by (simp add: copyComponents_Cons copyComponent_None_iff [OF n] ih del: copyComponents.simps)
qed

lemma copyComponents_written:
  assumes "\<forall>n \<in> set ns. CHR ''/'' \<notin> set n"
  shows "written (fst (copyComponents w (cwd w @ [''components'', ''ui'']) ns (ins, fl)))
           = written w @ map (\<lambda>n. (target_path (cwd w) n, toString_utf8 (the (store w (source_path (cwd w) n)))))
                           (filter (copy_ok w) ns)"
  using assms
proof (induction ns arbitrary: w ins fl)
  case Nil
  then show ?case by simp
next
  case (Cons n ns)
  then have n: "CHR ''/'' \<notin> set n" and ns: "\<forall>n \<in> set ns. CHR ''/'' \<notin> set n"
    by simp_all
  have ih: "\<And>i f. written (fst (copyComponents (after_copy w n) (cwd w @ [''components'', ''ui'']) ns (i, f)))
               = written (after_copy w n)
                 @ map (\<lambda>n. (target_path (cwd w) n, toString_utf8 (the (store w (source_path (cwd w) n)))))
                     (filter (copy_ok w) ns)"
    using Cons.IH [OF ns, of "after_copy w n"]
    by (simp add: after_copy_frame [OF n] after_copy_ok [OF n] after_copy_source [OF n])
  show ?case
    by (simp add: copyComponents_Cons ih after_copy_written [OF n] del: copyComponents.simps)
qed

lemma copyComponents_store_frame:
  assumes "\<forall>n \<in> set ns. CHR ''/'' \<notin> set n" and "p \<notin> target_path (cwd w) ` set ns"
  shows "store (fst (copyComponents w (cwd w @ [''components'', ''ui'']) ns (ins, fl))) p = store w p"
  using assms
proof (induction ns arbitrary: w ins fl)
  case Nil
  then show ?case by simp
next
  case (Cons n ns)
  then have n: "CHR ''/'' \<notin> set n" and ns: "\<forall>n \<in> set ns. CHR ''/'' \<notin> set n"
    and p: "p \<noteq> target_path (cwd w) n" "p \<notin> target_path (cwd w) ` set ns"
    by auto
  have ih: "\<And>i f. store (fst (copyComponents (after_copy w n) (cwd w @ [''components'', ''ui'']) ns (i, f))) p
               = store (after_copy w n) p"
    using Cons.IH [OF ns, of "after_copy w n"] p(2)
    by (simp add: after_copy_frame [OF n])
  show ?case
    by (simp add: copyComponents_Cons ih after_copy_store [OF n] p(1) del: copyComponents.simps)
qed

lemma copyComponents_store_target:
  assumes "\<forall>n \<in> set ns. CHR ''/'' \<notin> set n" and "k \<in> set ns" and "copy_ok w k"
  shows "store (fst (copyComponents w (cwd w @ [''components'', ''ui'']) ns (ins, fl)))
           (target_path (cwd w) k) = map_option toString_utf8 (store w (source_path (cwd w) k))"
  using assms
proof (induction ns arbitrary: w ins fl)
  case Nil
  then show ?case by simp
next
  case (Cons n ns)
  then have n: "CHR ''/'' \<notin> set n" and ns: "\<forall>n \<in> set ns. CHR ''/'' \<notin> set n"
    by simp_all
  let ?w = "after_copy w n"
  let ?d = "cwd w @ [''components'', ''ui'']"
  show ?case
  proof (cases "k \<in> set ns")
    case True
    have "store (fst (copyComponents ?w (cwd ?w @ [''components'', ''ui'']) ns
                        (if snd (copyComponent w ?d n) = None then (ins @ [n], fl) else (ins, fl @ [n]))))
            (target_path (cwd ?w) k) = map_option toString_utf8 (store ?w (source_path (cwd ?w) k))"
      using Cons.IH [OF ns True, of ?w] Cons.prems(3)
      by (auto simp: after_copy_ok [OF n] split: if_splits)
    then show ?thesis
      by (simp add: copyComponents_Cons after_copy_frame [OF n] after_copy_source [OF n]
          del: copyComponents.simps)
  next
    case False
    then have kn: "k = n" using Cons.prems(2) by simp
    have "target_path (cwd ?w) k \<notin> target_path (cwd ?w) ` set ns"
      using False by (auto simp: target_path_inj)
    then have "store (fst (copyComponents ?w (cwd ?w @ [''components'', ''ui'']) ns
                        (if snd (copyComponent w ?d n) = None then (ins @ [n], fl) else (ins, fl @ [n]))))
            (target_path (cwd ?w) k) = store ?w (target_path (cwd ?w) k)"
      using copyComponents_store_frame [OF ns, of _ ?w] by (auto split: if_splits)
    then show ?thesis
      using Cons.prems(3)
      by (simp add: copyComponents_Cons after_copy_frame [OF n] after_copy_store [OF n] kn
          del: copyComponents.simps)
  qed
qed


lemma set_replace_empty: "set (replace s pat []) \<subseteq> set s"
proof (induction s)
  case Nil
  then show ?case by simp
next
  case (Cons c cs)
  have "set (drop (length pat) (c # cs)) \<subseteq> set (c # cs)"
    by (rule set_drop_subset)
  with Cons show ?case by auto
qed

lemma available_names_plain:
  assumes "ui_listing w = Some entries" and "\<forall>f \<in> set entries. CHR ''/'' \<notin> set f"
    and "listAvailableComponents w = Inr avail" and "n \<in> set avail"
  shows "CHR ''/'' \<notin> set n"
  using assms set_replace_empty by (fastforce simp: listAvailableComponents_def)

text \<open>
  Claim C1, as the code has it. For every selection of valid component names (names
  without \<^verbatim>\<open>/\<close>, as every name taken from the entries of the \<^verbatim>\<open>ui\<close> directory is), each
  copy succeeds or fails on its own: the installed list is the selection restricted to
  the components whose source can be read and whose target can be written, the failed
  list is the selection restricted to the others, both in selection order, so that every
  name of the selection is in exactly one of the two lists. Exactly one file is written
  for each installed component, and none for a failed one: a component that is read but
  whose write fails is recorded as failed.
\<close>

theorem copy_stage_partition:
  assumes "\<forall>n \<in> set sel. CHR ''/'' \<notin> set n"
    and "copyComponents w (path_join (cwd w) [''components'', ''ui'']) sel ([], []) = (w', ins, fl)"
  shows "ins = filter (copy_ok w) sel
         \<and> fl = filter (\<lambda>n. \<not> copy_ok w n) sel
         \<and> set ins \<inter> set fl = {}
         \<and> set ins \<union> set fl = set sel
         \<and> written w'
             = written w
               @ map (\<lambda>n. (target_path (cwd w) n, toString_utf8 (the (store w (source_path (cwd w) n))))) ins"
proof -
  have r: "copyComponents w (cwd w @ [''components'', ''ui'']) sel ([], []) = (w', ins, fl)"
    using assms(2) by (simp add: componentDir_eq)
  have l: "ins = filter (copy_ok w) sel" "fl = filter (\<lambda>n. \<not> copy_ok w n) sel"
    using copyComponents_lists [OF assms(1), of w "[]" "[]"] r by simp_all
  have wr: "written w'
      = written w @ map (\<lambda>n. (target_path (cwd w) n, toString_utf8 (the (store w (source_path (cwd w) n))))) ins"
    using copyComponents_written [OF assms(1), of w "[]" "[]"] r l(1) by simp
  show ?thesis
    using l wr by auto
qed

theorem copy_stage_partition_witness:
  "fst (snd (copyComponents readonly_world (path_join (cwd readonly_world) [''components'', ''ui''])
               [''ghost'', ''button'', ''card''] ([], []))) = [''button'']
   \<and> snd (snd (copyComponents readonly_world (path_join (cwd readonly_world) [''components'', ''ui''])
               [''ghost'', ''button'', ''card''] ([], []))) = [''ghost'', ''card'']
   \<and> written (fst (copyComponents readonly_world (path_join (cwd readonly_world) [''components'', ''ui''])
               [''ghost'', ''button'', ''card''] ([], [])))
       = [([''home'', ''app'', ''components'', ''ui'', ''button.tsx''], ''export const Button = 1'')]"
proof -
  obtain w' ins fl where r:
    "copyComponents readonly_world (path_join (cwd readonly_world) [''components'', ''ui''])
       [''ghost'', ''button'', ''card''] ([], []) = (w', ins, fl)"
    by (rule prod_cases3)
  have sf: "\<forall>n \<in> set [''ghost'', ''button'', ''card'']. CHR ''/'' \<notin> set n"
    by simp
  have ok: "\<not> copy_ok readonly_world ''ghost''" "copy_ok readonly_world ''button''"
      "\<not> copy_ok readonly_world ''card''"
    by (simp_all add: copy_ok_def source_path_def target_path_def readonly_world_def demo_world_def)
  have v: "target_path (cwd readonly_world) ''button''
             = [''home'', ''app'', ''components'', ''ui'', ''button.tsx'']"
      "toString_utf8 (the (store readonly_world (source_path (cwd readonly_world) ''button'')))
             = ''export const Button = 1''"
      "written readonly_world = []"
    by (simp_all add: source_path_def target_path_def readonly_world_def demo_world_def
        toString_utf8_examples)
  note t = copy_stage_partition [OF sf r]
  show ?thesis
    unfolding r using t by (simp add: ok v)
qed

text \<open>Claim C1, as stated, fails when a write fails: the component is read, it is
  recorded as failed, and no file is written for it.\<close>

theorem copy_stage_partition_counterexample:
  "readComponentFromUI readonly_world ''card''
     = Inr \<lparr>files = [\<lparr>name = ''card.tsx'', content = ''export const Card = 2''\<rparr>],
            dependencies = [''class-variance-authority'', ''tailwind-merge'', ''clsx'']\<rparr>
   \<and> snd (copyComponents readonly_world (path_join (cwd readonly_world) [''components'', ''ui''])
            [''card''] ([], [])) = ([], [''card''])
   \<and> written (fst (copyComponents readonly_world (path_join (cwd readonly_world) [''components'', ''ui''])
            [''card''] ([], []))) = []"
  by (simp add: copyComponent_def writeFile_def readComponentFromUI_cases path_join_def
      norm_push_def readonly_world_def demo_world_def toLowerCase_def lower_char_def
      toString_utf8_examples)

text \<open>
  Claim C10, as the code has it. For every component the copy stage records as
  installed (the names are valid component names, without \<^verbatim>\<open>/\<close>), the source
  \<^verbatim>\<open>ui/<name>.tsx\<close> is read as UTF-8 and the string is written, as UTF-8, to
  \<^verbatim>\<open>components/ui/<name>.tsx\<close>, whatever was there before: when the stage is over the
  target holds the bytes of the source with every ill-formed sequence replaced by
  U+FFFD. When the source is well-formed UTF-8 nothing is replaced, and the target is
  byte for byte the source.
\<close>

theorem copy_preserves_content:
  assumes "\<forall>n \<in> set sel. CHR ''/'' \<notin> set n"
    and "copyComponents w (path_join (cwd w) [''components'', ''ui'']) sel ([], []) = (w', ins, fl)"
    and "n \<in> set ins"
  shows "\<exists>bytes.
           store w (cwd w @ [''ui'', n @ ''.tsx'']) = Some bytes
           \<and> store w' (cwd w @ [''components'', ''ui'', n @ ''.tsx'']) = Some (toString_utf8 bytes)
           \<and> (cwd w @ [''components'', ''ui'', n @ ''.tsx''], toString_utf8 bytes) \<in> set (written w')
           \<and> (well_formed_utf8 bytes \<longrightarrow>
                store w' (cwd w @ [''components'', ''ui'', n @ ''.tsx''])
                  = store w (cwd w @ [''ui'', n @ ''.tsx'']))"
proof -
  have r: "copyComponents w (cwd w @ [''components'', ''ui'']) sel ([], []) = (w', ins, fl)"
    using assms(2) by (simp add: componentDir_eq)
  have l: "ins = filter (copy_ok w) sel"
    using copyComponents_lists [OF assms(1), of w "[]" "[]"] r by simp
  then have n: "n \<in> set sel" "copy_ok w n"
    using assms(3) by simp_all
  then obtain bytes where b: "store w (source_path (cwd w) n) = Some bytes"
    by (auto simp: copy_ok_def)
  have wr: "written w'
      = written w
        @ map (\<lambda>n. (target_path (cwd w) n, toString_utf8 (the (store w (source_path (cwd w) n))))) ins"
    using copyComponents_written [OF assms(1), of w "[]" "[]"] r l by simp
  have st: "store w' (target_path (cwd w) n) = Some (toString_utf8 bytes)"
    using copyComponents_store_target [OF assms(1) n, of "[]" "[]"] r b by simp
  have "(target_path (cwd w) n, toString_utf8 (the (store w (source_path (cwd w) n))))
          \<in> set (written w')"
    unfolding wr using assms(3) by auto
  then have lg: "(target_path (cwd w) n, toString_utf8 bytes) \<in> set (written w')"
    by (simp add: b)
  have "well_formed_utf8 bytes \<longrightarrow> store w' (target_path (cwd w) n) = store w (source_path (cwd w) n)"
    by (simp add: st b toString_utf8_well_formed)
  then show ?thesis
    using b st lg by (simp add: source_path_def target_path_def)
qed

theorem copy_preserves_content_witness:
  "store demo_world [''home'', ''app'', ''components'', ''ui'', ''card.tsx''] = Some ''stale''
   \<and> store (fst (copyComponents demo_world (path_join (cwd demo_world) [''components'', ''ui''])
                   [''button'', ''card''] ([], [])))
        [''home'', ''app'', ''components'', ''ui'', ''card.tsx''] = Some ''export const Card = 2''"
proof -
  obtain w' ins fl where r:
    "copyComponents demo_world (path_join (cwd demo_world) [''components'', ''ui''])
       [''button'', ''card''] ([], []) = (w', ins, fl)"
    by (rule prod_cases3)
  have sf: "\<forall>n \<in> set [''button'', ''card'']. CHR ''/'' \<notin> set n"
    by simp
  have ok: "copy_ok demo_world ''button''" "copy_ok demo_world ''card''"
    by (simp_all add: copy_ok_def source_path_def target_path_def demo_world_def)
  have "ins = [''button'', ''card'']"
    using copyComponents_lists [OF sf, of demo_world "[]" "[]"] r ok
    by (simp add: componentDir_eq)
  then have m: "''card'' \<in> set ins" by simp
  have c: "cwd demo_world = [''home'', ''app'']"
      "store demo_world [''home'', ''app'', ''ui'', ''card.tsx''] = Some ''export const Card = 2''"
      "store demo_world [''home'', ''app'', ''components'', ''ui'', ''card.tsx''] = Some ''stale''"
    by (simp_all add: demo_world_def)
  have wf: "well_formed_utf8 ''export const Card = 2''"
    by (simp add: Let_def)
  note t = copy_preserves_content [OF sf r m]
  show ?thesis
    unfolding r using t wf by (auto simp: c)
qed

text \<open>Claim C10, as stated, fails for a source that is not well-formed UTF-8: the
  component is installed, and the target holds EF BF BD 41 where the source holds
  FF 41.\<close>

theorem copy_preserves_content_counterexample:
  "store binary_world [''home'', ''app'', ''ui'', ''bin.tsx''] = Some [CHR 0xFF, CHR 0x41]
   \<and> fst (snd (copyComponents binary_world (path_join (cwd binary_world) [''components'', ''ui''])
                  [''bin''] ([], []))) = [''bin'']
   \<and> store (fst (copyComponents binary_world (path_join (cwd binary_world) [''components'', ''ui''])
                   [''bin''] ([], [])))
        [''home'', ''app'', ''components'', ''ui'', ''bin.tsx'']
       = Some [CHR 0xEF, CHR 0xBF, CHR 0xBD, CHR 0x41]"
  by (simp add: copyComponent_def writeFile_def readComponentFromUI_cases path_join_def
      norm_push_def binary_world_def demo_world_def toLowerCase_def lower_char_def
      toString_utf8_def replacement_def Let_def)

section \<open>A failing installer\<close>

lemma installDependencies_frame:
  "console (fst (installDependencies w deps)) = console w"
  "written (fst (installDependencies w deps)) = written w"
  by (cases "deps = []"; simp add: installDependencies_empty installDependencies_nonempty)+

lemma installDependencies_fails_nonempty:
  "snd (installDependencies w deps) = Some e \<Longrightarrow> deps \<noteq> []"
  by (auto simp: installDependencies_empty)

lemma install_or_warn_console:
  "set (console w) \<subseteq> set (console (install_or_warn w deps msg))"
proof (cases "installDependencies w deps")
  case (Pair w' r)
  then have "console w' = console w"
    using installDependencies_frame(1) [of w deps] by simp
  then show ?thesis
    using Pair by (auto simp: install_or_warn_def split: option.splits)
qed

lemma writeFiles_console: "console (fst (writeFiles w d fs)) = console w"
  by (induction fs arbitrary: w) (auto simp: writeFile_def)

lemma copyComponent_console: "console (fst (copyComponent w d n)) = console w"
  by (simp add: copyComponent_def writeFiles_console split: sum.splits)

lemma copyComponents_console:
  "set (console w) \<subseteq> set (console (fst (copyComponents w d ns acc)))"
proof (induction ns arbitrary: w acc)
  case Nil
  then show ?case by simp
next
  case (Cons n ns)
  obtain ins fl where acc: "acc = (ins, fl)" by (cases acc)
  obtain w' r where c: "copyComponent w d n = (w', r)" by (cases "copyComponent w d n")
  have w': "console w' = console w"
    using copyComponent_console [of w d n] c by simp
  show ?case
  proof (cases r)
    case None
    then show ?thesis
      using Cons.IH [of w' "(ins @ [n], fl)"] by (simp add: acc c w')
  next
    case (Some e)
    have "set (console w)
            \<subseteq> set (console (w'\<lparr>console := console w'
                    @ [Line (''Warning: Failed to add '' @ n), ErrorMessage e]\<rparr>))"
      by (auto simp: w')
    also have "\<dots> \<subseteq> set (console (fst (copyComponents
                    (w'\<lparr>console := console w'
                          @ [Line (''Warning: Failed to add '' @ n), ErrorMessage e]\<rparr>)
                    d ns (ins, fl @ [n]))))"
      by (rule Cons.IH)
    finally show ?thesis
      by (simp add: acc c Some)
  qed
qed

lemma copyComponents_names:
  "set (fst (snd (copyComponents w d ns (ins, fl)))) \<union> set (snd (snd (copyComponents w d ns (ins, fl))))
     = set ins \<union> set fl \<union> set ns"
proof (induction ns arbitrary: w ins fl)
  case Nil
  then show ?case by simp
next
  case (Cons n ns)
  obtain w' r where c: "copyComponent w d n = (w', r)" by (cases "copyComponent w d n")
  show ?case
  proof (cases r)
    case None
    then show ?thesis
      using Cons.IH [of w' "ins @ [n]" fl] by (auto simp: c)
  next
    case (Some e)
    then show ?thesis
      using Cons.IH [of _ ins "fl @ [n]"] by (auto simp: c)
  qed
qed

lemma installDependencies_console:
  "installDependencies (w\<lparr>console := c\<rparr>) deps
     = ((fst (installDependencies w deps))\<lparr>console := c\<rparr>, snd (installDependencies w deps))"
  by (cases "deps = []")
     (simp_all add: installDependencies_empty installDependencies_nonempty detectPackageManager_def
        resolve_def exists_store)

lemma install_or_warn_eq:
  assumes "installDependencies w deps = (w', r)"
  shows "install_or_warn w deps msg
           = w'\<lparr>console := console w'
                   @ (case r of None \<Rightarrow> [] | Some e \<Rightarrow> [Line msg, ErrorMessage e])\<rparr>"
proof (cases "deps = []")
  case True
  then show ?thesis
    using assms by (simp add: install_or_warn_def installDependencies_empty)
next
  case False
  then show ?thesis
    using assms by (simp add: install_or_warn_def split: option.splits)
qed

lemma install_if_nonempty:
  "(if length deps > 0 then installDependencies w deps else (w, None)) = installDependencies w deps"
  "(if deps \<noteq> [] then installDependencies w deps else (w, None)) = installDependencies w deps"
  "(if deps = [] then (w, None) else installDependencies w deps) = installDependencies w deps"
  by (simp_all add: installDependencies_empty)

text \<open>
  Claim C2, as the code has it. A run reaches the installer when the components are
  listed, the selected names are among them, the target directory is made and every
  component is read; the installer is then called for the general set and, after it,
  for the special-cased set. \<^verbatim>\<open>add\<close> of src/cli/cli.ts catches the failure of either
  call, prints a warning with its message, copies every selected component and returns,
  so that the process ends with code 0. \<^verbatim>\<open>add\<close> of the version with
  \<^verbatim>\<open>installComponents\<close>, called with the names or with the names as the answer of the
  prompt, exits with code 1 at the first call that fails, with nothing written; it
  copies only when both calls succeed.
\<close>

theorem install_failure_handling:
  assumes "listAvailableComponents w = Inr avail"
    and "set sel \<subseteq> set avail"
    and "sel \<noteq> []"
    and "mkdir_ok w (path_join (cwd w) [''components'', ''ui''])"
    and "collectDependencies w sel ([], []) = Inr (allD, radixD)"
    and "installDependencies w allD = (w1, r1)"
    and "installDependencies w1 radixD = (w2, r2)"
  shows "(\<exists>wc w3 s.
            cli_add w (Answered sel) = (w3, Returned s)
            \<and> copyComponents wc (path_join (cwd w) [''components'', ''ui'']) sel ([], [])
                = (w3, installed s, failed s)
            \<and> set (installed s) \<union> set (failed s) = set sel
            \<and> (\<forall>e. r1 = Some e \<longrightarrow>
                  Line ''Warning: Failed to install dependencies'' \<in> set (console w3)
                  \<and> ErrorMessage e \<in> set (console w3))
            \<and> (\<forall>e. r2 = Some e \<longrightarrow>
                  Line ''Warning: Failed to install Radix UI dependencies'' \<in> set (console w3)
                  \<and> ErrorMessage e \<in> set (console w3)))
         \<and> (r1 \<noteq> None \<longrightarrow>
               add w sel answer = (w1, Exited 1)
               \<and> add w [] (Answered sel) = (w1, Exited 1)
               \<and> written w1 = written w)
         \<and> (r1 = None \<and> r2 \<noteq> None \<longrightarrow>
               add w sel answer = (w2, Exited 1)
               \<and> add w [] (Answered sel) = (w2, Exited 1)
               \<and> written w2 = written w)
         \<and> (r1 = None \<and> r2 = None \<longrightarrow>
               (\<exists>w3 s. add w sel answer = (w3, Returned s)
                       \<and> add w [] (Answered sel) = (w3, Returned s)
                       \<and> set (installed s) \<union> set (failed s) = set sel))"
proof -
  let ?d = "path_join (cwd w) [''components'', ''ui'']"
  let ?m1 = "''Warning: Failed to install dependencies''"
  let ?m2 = "''Warning: Failed to install Radix UI dependencies''"
  have avail: "avail \<noteq> []"
    using assms(2,3) by auto
  let ?c1 = "console w1 @ (case r1 of None \<Rightarrow> [] | Some e \<Rightarrow> [Line ?m1, ErrorMessage e])"
  let ?w1 = "w1\<lparr>console := ?c1\<rparr>"
  have first: "install_or_warn w allD ?m1 = ?w1"
    using assms(6) by (rule install_or_warn_eq)
  have second': "installDependencies ?w1 radixD = (w2\<lparr>console := ?c1\<rparr>, r2)"
    using assms(7) by (simp add: installDependencies_console)
  let ?c2 = "?c1 @ (case r2 of None \<Rightarrow> [] | Some e \<Rightarrow> [Line ?m2, ErrorMessage e])"
  let ?w2 = "w2\<lparr>console := ?c2\<rparr>"
  have second: "install_or_warn ?w1 radixD ?m2 = ?w2"
    using install_or_warn_eq [OF second', of ?m2] by simp
  obtain w3 ins fl where cp: "copyComponents ?w2 ?d sel ([], []) = (w3, ins, fl)"
    by (rule prod_cases3)
  have run: "cli_add w (Answered sel)
               = (w3, Returned \<lparr>installed = ins, failed = fl, allDeps = allD, radixDeps = radixD\<rparr>)"
    using assms(1,4,5) avail first second cp by (simp add: cli_add_def Let_def)
  have names: "set ins \<union> set fl = set sel"
    using copyComponents_names [of ?w2 ?d sel "[]" "[]"] cp by simp
  have sub: "set ?c2 \<subseteq> set (console w3)"
    using copyComponents_console [of ?w2 ?d sel "([], [])"] cp by simp
  have warn1: "\<forall>e. r1 = Some e \<longrightarrow> Line ?m1 \<in> set (console w3) \<and> ErrorMessage e \<in> set (console w3)"
    using sub by auto
  have warn2: "\<forall>e. r2 = Some e \<longrightarrow> Line ?m2 \<in> set (console w3) \<and> ErrorMessage e \<in> set (console w3)"
    using sub by auto
  have cli: "\<exists>wc w3 s.
            cli_add w (Answered sel) = (w3, Returned s)
            \<and> copyComponents wc ?d sel ([], []) = (w3, installed s, failed s)
            \<and> set (installed s) \<union> set (failed s) = set sel
            \<and> (\<forall>e. r1 = Some e \<longrightarrow>
                  Line ?m1 \<in> set (console w3) \<and> ErrorMessage e \<in> set (console w3))
            \<and> (\<forall>e. r2 = Some e \<longrightarrow>
                  Line ?m2 \<in> set (console w3) \<and> ErrorMessage e \<in> set (console w3))"
    using run cp names warn1 warn2
    by (intro exI [of _ ?w2] exI [of _ w3]
        exI [of _ "\<lparr>installed = ins, failed = fl, allDeps = allD, radixDeps = radixD\<rparr>"]) simp
  have inv: "filter (\<lambda>comp. comp \<notin> set avail) sel = []"
    using assms(2) by (auto simp: filter_empty_conv)
  have ic: "installComponents w sel =
      (case r1 of
         Some e \<Rightarrow> (w1, Exited 1)
       | None \<Rightarrow>
           (case r2 of
              Some e \<Rightarrow> (w2, Exited 1)
            | None \<Rightarrow>
                (case copyComponents w2 ?d sel ([], []) of
                   (w3, ins, fl) \<Rightarrow>
                     (w3, Returned \<lparr>installed = ins, failed = fl,
                                    allDeps = allD, radixDeps = radixD\<rparr>))))"
    using assms(1,4,5,6,7) inv
    by (simp add: installComponents_def Let_def install_if_nonempty split: option.splits)
  have ad: "add w sel answer = installComponents w sel"
      "add w [] (Answered sel) = installComponents w sel"
    using assms(1,3) avail by (simp_all add: add_def)
  have wr: "written w1 = written w" "written w2 = written w"
    using installDependencies_frame(2) [of w allD] installDependencies_frame(2) [of w1 radixD]
      assms(6,7) by simp_all
  have f1: "r1 \<noteq> None \<longrightarrow>
               add w sel answer = (w1, Exited 1)
               \<and> add w [] (Answered sel) = (w1, Exited 1) \<and> written w1 = written w"
    using ic ad wr by auto
  have f2: "r1 = None \<and> r2 \<noteq> None \<longrightarrow>
               add w sel answer = (w2, Exited 1)
               \<and> add w [] (Answered sel) = (w2, Exited 1) \<and> written w2 = written w"
    using ic ad wr by auto
  obtain v3 i3 f3 where cp2: "copyComponents w2 ?d sel ([], []) = (v3, i3, f3)"
    by (rule prod_cases3)
  have names2: "set i3 \<union> set f3 = set sel"
    using copyComponents_names [of w2 ?d sel "[]" "[]"] cp2 by simp
  have f3: "r1 = None \<and> r2 = None \<longrightarrow>
               (\<exists>w3 s. add w sel answer = (w3, Returned s)
                       \<and> add w [] (Answered sel) = (w3, Returned s)
                       \<and> set (installed s) \<union> set (failed s) = set sel)"
    using ic ad cp2 names2 by auto
  show ?thesis
    using cli f1 f2 f3 by blast
qed

theorem install_failure_handling_witness:
  "installDependencies offline_world [''class-variance-authority'', ''tailwind-merge'', ''clsx'']
     = (offline_world\<lparr>executed :=
          [\<lparr>command = ''npm install --save class-variance-authority tailwind-merge clsx'',
            stdio_inherit = True\<rparr>]\<rparr>, Some (InstallFailed Npm))
   \<and> (\<exists>w3 s. cli_add offline_world (Answered [''card'']) = (w3, Returned s)
              \<and> set (installed s) \<union> set (failed s) = {''card''}
              \<and> Line ''Warning: Failed to install dependencies'' \<in> set (console w3))
   \<and> snd (add offline_world [''card''] Cancelled) = Exited 1
   \<and> snd (installDependencies radix_offline_world
            [''class-variance-authority'', ''tailwind-merge'', ''clsx'', ''@radix-ui/react-slot''])
       = None
   \<and> snd (installDependencies
            (fst (installDependencies radix_offline_world
                    [''class-variance-authority'', ''tailwind-merge'', ''clsx'',
                     ''@radix-ui/react-slot'']))
            [''@radix-ui/react-slot''])
       = Some (InstallFailed Npm)
   \<and> (\<exists>w3 s. cli_add radix_offline_world (Answered [''button'']) = (w3, Returned s)
              \<and> set (installed s) \<union> set (failed s) = {''button''}
              \<and> Line ''Warning: Failed to install Radix UI dependencies'' \<in> set (console w3))
   \<and> snd (add radix_offline_world [''button''] Cancelled) = Exited 1"
proof -
  let ?base = "[''class-variance-authority'', ''tailwind-merge'', ''clsx'']"
  let ?slot = "[''@radix-ui/react-slot'']"
  have l: "listAvailableComponents offline_world = Inr [''button'', ''card'']"
    by (simp add: listAvailableComponents_def endsWith_def offline_world_def demo_world_def)
  have sub: "set [''card''] \<subseteq> set [''button'', ''card'']" and ne: "[''card''] \<noteq> []"
    by simp_all
  have mk: "mkdir_ok offline_world (path_join (cwd offline_world) [''components'', ''ui''])"
    by (simp add: offline_world_def demo_world_def)
  have col: "collectDependencies offline_world [''card''] ([], []) = Inr (?base, [])"
    by (simp add: readComponentFromUI_cases path_join_def norm_push_def offline_world_def
        demo_world_def set_add_def toLowerCase_def lower_char_def)
  have i1: "installDependencies offline_world ?base
     = (offline_world\<lparr>executed :=
          [\<lparr>command = ''npm install --save class-variance-authority tailwind-merge clsx'',
            stdio_inherit = True\<rparr>]\<rparr>, Some (InstallFailed Npm))"
    by (simp add: installDependencies_def execSync_def installCommand_def detectPackageManager_def
        resolve_plain exists_store offline_world_def demo_world_def)
  have i2: "installDependencies
      (offline_world\<lparr>executed :=
          [\<lparr>command = ''npm install --save class-variance-authority tailwind-merge clsx'',
            stdio_inherit = True\<rparr>]\<rparr>) [] =
      (offline_world\<lparr>executed :=
          [\<lparr>command = ''npm install --save class-variance-authority tailwind-merge clsx'',
            stdio_inherit = True\<rparr>]\<rparr>, None)"
    by (rule installDependencies_empty)
  note t = install_failure_handling [OF l sub ne mk col i1 i2, of Cancelled]
  have a: "\<exists>w3 s. cli_add offline_world (Answered [''card'']) = (w3, Returned s)
              \<and> set (installed s) \<union> set (failed s) = {''card''}
              \<and> Line ''Warning: Failed to install dependencies'' \<in> set (console w3)"
    using t by auto
  have b: "snd (add offline_world [''card''] Cancelled) = Exited 1"
    using t by simp
  have l': "listAvailableComponents radix_offline_world = Inr [''button'', ''card'']"
    by (simp add: listAvailableComponents_def endsWith_def radix_offline_world_def demo_world_def)
  have sub': "set [''button''] \<subseteq> set [''button'', ''card'']" and ne': "[''button''] \<noteq> []"
    by simp_all
  have mk': "mkdir_ok radix_offline_world
               (path_join (cwd radix_offline_world) [''components'', ''ui''])"
    by (simp add: radix_offline_world_def demo_world_def)
  have col': "collectDependencies radix_offline_world [''button''] ([], [])
                = Inr (?base @ ?slot, ?slot)"
    by (simp add: readComponentFromUI_cases path_join_def norm_push_def radix_offline_world_def
        demo_world_def set_add_def toLowerCase_def lower_char_def)
  have r1: "snd (installDependencies radix_offline_world (?base @ ?slot)) = None"
    by (simp add: installDependencies_def execSync_def installCommand_def detectPackageManager_def
        resolve_plain exists_store radix_offline_world_def demo_world_def)
  have r2: "snd (installDependencies (fst (installDependencies radix_offline_world (?base @ ?slot)))
                   ?slot) = Some (InstallFailed Npm)"
    by (simp add: installDependencies_def execSync_def installCommand_def detectPackageManager_def
        resolve_plain exists_store radix_offline_world_def demo_world_def)
  have j1: "installDependencies radix_offline_world (?base @ ?slot)
              = (fst (installDependencies radix_offline_world (?base @ ?slot)), None)"
    using r1 by (metis prod.collapse)
  have j2: "installDependencies (fst (installDependencies radix_offline_world (?base @ ?slot))) ?slot
              = (fst (installDependencies
                        (fst (installDependencies radix_offline_world (?base @ ?slot))) ?slot),
                 Some (InstallFailed Npm))"
    using r2 by (metis prod.collapse)
  note t' = install_failure_handling [OF l' sub' ne' mk' col' j1 j2, of Cancelled]
  have a': "\<exists>w3 s. cli_add radix_offline_world (Answered [''button'']) = (w3, Returned s)
              \<and> set (installed s) \<union> set (failed s) = {''button''}
              \<and> Line ''Warning: Failed to install Radix UI dependencies'' \<in> set (console w3)"
    using t' by auto
  have b': "snd (add radix_offline_world [''button''] Cancelled) = Exited 1"
    using t' by simp
  show ?thesis
    using i1 a b r1 r2 a' b' by simp
qed

text \<open>Claim C2, as stated, fails for \<^verbatim>\<open>add\<close> with \<^verbatim>\<open>installComponents\<close>: the component
  could be copied, the installer fails, at its first call in one run and at its second
  call in the other, and the run exits with code 1 with nothing written.\<close>

theorem install_failure_aborts_counterexample:
  "copy_ok offline_world ''card''
   \<and> snd (installDependencies offline_world
            [''class-variance-authority'', ''tailwind-merge'', ''clsx''])
       = Some (InstallFailed Npm)
   \<and> snd (add offline_world [''card''] Cancelled) = Exited 1
   \<and> written (fst (add offline_world [''card''] Cancelled)) = []
   \<and> copy_ok radix_offline_world ''button''
   \<and> snd (add radix_offline_world [''button''] Cancelled) = Exited 1
   \<and> written (fst (add radix_offline_world [''button''] Cancelled)) = []
   \<and> length (executed (fst (add radix_offline_world [''button''] Cancelled))) = 2"
  by (simp add: add_def installComponents_def listAvailableComponents_def endsWith_def
      readComponentFromUI_cases path_join_def norm_push_def set_add_def toLowerCase_def
      lower_char_def installDependencies_def execSync_def detectPackageManager_def
      resolve_plain exists_store copy_ok_def source_path_def target_path_def
      installCommand_def offline_world_def radix_offline_world_def demo_world_def)

end
